theory Spec2Isabelle
  imports Main "HOL-Library.AList" "HOL-Library.Sublist"
begin

section \<open>The virtual file table\<close>

text \<open>
  \<^verbatim>\<open>FileSystemState = Record<string, string | null>\<close>: a table entry is text, or
  \<^verbatim>\<open>null\<close> for a file of the remote tree whose content has not been fetched.
  A JavaScript object has no key twice and keeps its string keys in insertion order
  (keys that are array indices would come first; a path is not one), so a table is an
  association list; a key that is absent reads as \<^verbatim>\<open>undefined\<close>, which is
  \<open>None\<close> of \<open>map_of\<close>. Strings are lists of 8-bit characters.
\<close>

datatype content = Text string | Unfetched

type_synonym FileSystemState = "(string \<times> content) list"

text \<open>\<^verbatim>\<open>Object.keys(obj)\<close> and \<^verbatim>\<open>obj[key]\<close>.\<close>

definition keys :: "FileSystemState \<Rightarrow> string list" where
  "keys obj = map fst obj"

definition lookup :: "FileSystemState \<Rightarrow> string \<Rightarrow> content option" where
  "lookup obj key = map_of obj key"

text \<open>
  \<^verbatim>\<open>{ ...a, ...b }\<close>: the own properties of \<open>a\<close>, then every property of \<open>b\<close>
  assigned in turn. An assignment to a key that is present replaces the value where the
  key stands; a new key goes to the end (\<open>AList.update\<close>).
\<close>

definition spread :: "FileSystemState \<Rightarrow> FileSystemState \<Rightarrow> FileSystemState" where
  "spread a b = foldl (\<lambda>acc (k, v). AList.update k v acc) a b"

section \<open>JavaScript array and string primitives\<close>

text \<open>
  \<^verbatim>\<open>xs.slice(0, e)\<close>: a negative end counts from the end of the array, and the end is
  clamped to the length.
\<close>

definition slice0 :: "'a list \<Rightarrow> int \<Rightarrow> 'a list" where
  "slice0 xs e =
     (let n = int (length xs);
          k = (if e < 0 then max (n + e) 0 else min e n)
      in take (nat k) xs)"

text \<open>\<^verbatim>\<open>xs[i]\<close>: \<^verbatim>\<open>undefined\<close> (\<open>None\<close>) when the index is out of range.\<close>

definition at_index :: "'a list \<Rightarrow> int \<Rightarrow> 'a option" where
  "at_index xs i = (if 0 \<le> i \<and> i < int (length xs) then Some (xs ! nat i) else None)"

definition startsWith :: "string \<Rightarrow> string \<Rightarrow> bool" where
  "startsWith s p = prefix p s"

definition endsWith :: "string \<Rightarrow> string \<Rightarrow> bool" where
  "endsWith s p = suffix p s"

text \<open>\<^verbatim>\<open>s.includes(t)\<close>: \<open>t\<close> occurs in \<open>s\<close>.\<close>

fun string_includes :: "string \<Rightarrow> string \<Rightarrow> bool" where
  "string_includes [] t = (t = [])"
| "string_includes (c # cs) t = (prefix t (c # cs) \<or> string_includes cs t)"

section \<open>The store: live table and snapshot history (src/store.ts)\<close>

text \<open>
  The fields of \<^verbatim>\<open>StoreState\<close> that the history operations read or write. The live
  table is \<open>None\<close> when it holds \<^verbatim>\<open>undefined\<close>, which \<^verbatim>\<open>undo\<close> and
  \<^verbatim>\<open>redo\<close> store when they index the history out of range.
\<close>

record StoreState =
  fileSystem :: "FileSystemState option"
  fileSystemHistory :: "FileSystemState list"
  currentHistoryIndex :: int

text \<open>The state \<^verbatim>\<open>create\<close> builds: an empty table, no snapshot, cursor \<open>-1\<close>.\<close>

definition initialStore :: StoreState where
  "initialStore = \<lparr>fileSystem = Some [], fileSystemHistory = [], currentHistoryIndex = - 1\<rparr>"

text \<open>
  \<^verbatim>\<open>loadStateFromDB\<close>. The saved state is \<open>None\<close> on a first run; its table may be
  missing (\<^verbatim>\<open>savedState.fileSystem || initialFileSystem\<close>). The constants of
  \<^verbatim>\<open>constants.ts\<close> are parameters.
\<close>

definition loadStateFromDB ::
  "FileSystemState \<Rightarrow> string \<Rightarrow> string \<Rightarrow> FileSystemState option option \<Rightarrow> StoreState \<Rightarrow> StoreState" where
  "loadStateFromDB initialFileSystem readmeContent templateRegistry savedState state =
     (case savedState of
        Some savedFs \<Rightarrow>
          (let loadedFs0 = (case savedFs of Some fs \<Rightarrow> fs | None \<Rightarrow> initialFileSystem);
               loadedFs1 = AList.update ''/README.md'' (Text readmeContent) loadedFs0;
               loadedFs = AList.update ''/templates/registry.json'' (Text templateRegistry) loadedFs1
           in state\<lparr>fileSystem := Some loadedFs,
                    fileSystemHistory := [loadedFs],
                    currentHistoryIndex := 0\<rparr>)
      | None \<Rightarrow>
          state\<lparr>fileSystem := Some initialFileSystem,
                fileSystemHistory := [initialFileSystem],
                currentHistoryIndex := 0\<rparr>)"

text \<open>\<^verbatim>\<open>setFileSystem(fs, snapshot = true)\<close>.\<close>

definition setFileSystem :: "FileSystemState \<Rightarrow> bool \<Rightarrow> StoreState \<Rightarrow> StoreState" where
  "setFileSystem fs snapshot state =
     (if snapshot then
        (let newHistory = slice0 (fileSystemHistory state) (currentHistoryIndex state + 1) @ [fs]
         in state\<lparr>fileSystem := Some fs,
                  fileSystemHistory := newHistory,
                  currentHistoryIndex := int (length newHistory) - 1\<rparr>)
      else state\<lparr>fileSystem := Some fs\<rparr>)"

definition undo :: "StoreState \<Rightarrow> StoreState" where
  "undo state =
     (if currentHistoryIndex state > 0 then
        (let newIndex = currentHistoryIndex state - 1
         in state\<lparr>fileSystem := at_index (fileSystemHistory state) newIndex,
                  currentHistoryIndex := newIndex\<rparr>)
      else state)"

definition redo :: "StoreState \<Rightarrow> StoreState" where
  "redo state =
     (if currentHistoryIndex state < int (length (fileSystemHistory state)) - 1 then
        (let newIndex = currentHistoryIndex state + 1
         in state\<lparr>fileSystem := at_index (fileSystemHistory state) newIndex,
                  currentHistoryIndex := newIndex\<rparr>)
      else state)"

definition canUndo :: "StoreState \<Rightarrow> bool" where
  "canUndo state = (currentHistoryIndex state > 0)"

definition canRedo :: "StoreState \<Rightarrow> bool" where
  "canRedo state = (currentHistoryIndex state < int (length (fileSystemHistory state)) - 1)"

text \<open>A sequence of writes that each record a snapshot, and one of writes that do not.\<close>

definition writes :: "bool \<Rightarrow> FileSystemState list \<Rightarrow> StoreState \<Rightarrow> StoreState" where
  "writes snapshot fss state = foldl (\<lambda>st fs. setFileSystem fs snapshot st) state fss"

text \<open>
  The state \<^verbatim>\<open>loadStateFromDB\<close> leaves, and every write that records a snapshot
  leaves again: the cursor is at the last snapshot, and that snapshot is the live table.
\<close>

definition at_tip :: "StoreState \<Rightarrow> bool" where
  "at_tip s =
     (fileSystemHistory s \<noteq> [] \<and>
      currentHistoryIndex s = int (length (fileSystemHistory s)) - 1 \<and>
      fileSystem s = Some (last (fileSystemHistory s)))"

section \<open>The changed-files calculator (the second subscription of src/store.ts)\<close>

datatype error = TypeError

datatype status = Modified | Added | Deleted

record FileChange =
  path :: string
  status :: status

text \<open>
  \<^verbatim>\<open>new Set([...])\<close> keeps the first occurrence of each element, in insertion order;
  \<^verbatim>\<open>forEach\<close> visits the elements in that order.
\<close>

definition set_add :: "'a list \<Rightarrow> 'a \<Rightarrow> 'a list" where
  "set_add s x = (if x \<in> set s then s else s @ [x])"

definition new_Set :: "'a list \<Rightarrow> 'a list" where
  "new_Set xs = foldl set_add [] xs"

text \<open>
  The body of \<^verbatim>\<open>allPaths.forEach\<close>. \<^verbatim>\<open>===\<close> and \<^verbatim>\<open>!==\<close> compare strings by
  value, and \<^verbatim>\<open>null\<close> is not \<^verbatim>\<open>undefined\<close>: an unfetched entry is a present one.
\<close>

definition changes_step ::
  "FileSystemState \<Rightarrow> FileSystemState \<Rightarrow> FileChange list \<Rightarrow> string \<Rightarrow> FileChange list" where
  "changes_step initialGithubFileSystem fs changes p =
     (let initialContent = lookup initialGithubFileSystem p;
          currentContent = lookup fs p
      in if initialContent = None \<and> currentContent \<noteq> None then
           changes @ [\<lparr>path = p, status = Added\<rparr>]
         else if initialContent \<noteq> None \<and> currentContent = None then
           changes @ [\<lparr>path = p, status = Deleted\<rparr>]
         else if initialContent \<noteq> currentContent then
           changes @ [\<lparr>path = p, status = Modified\<rparr>]
         else changes)"

text \<open>
  The subscriber, as a function of the pair it is called with; its result is the value it
  stores in \<^verbatim>\<open>changedFiles\<close>. A baseline of \<^verbatim>\<open>null\<close> is \<open>None\<close>;
  \<^verbatim>\<open>Object.keys(undefined)\<close> throws.
\<close>

definition changedFiles ::
  "FileSystemState option \<Rightarrow> FileSystemState option \<Rightarrow> error + FileChange list" where
  "changedFiles fileSystem_now initialGithubFileSystem =
     (case initialGithubFileSystem of
        None \<Rightarrow> Inr []
      | Some initial \<Rightarrow>
          (case fileSystem_now of
             None \<Rightarrow> Inl TypeError
           | Some fs \<Rightarrow>
               (let allPaths = new_Set (keys initial @ keys fs);
                    changes = foldl (changes_step initial fs) [] allPaths
                in Inr (filter (\<lambda>c. \<not> endsWith (path c) ''/.placeholder'') changes))))"

section \<open>The path resolver (\<^verbatim>\<open>resolvePath\<close>)\<close>

text \<open>\<^verbatim>\<open>s.lastIndexOf(c)\<close>, \<open>-1\<close> when \<open>c\<close> does not occur.\<close>

fun lastIndexOf :: "string \<Rightarrow> char \<Rightarrow> int" where
  "lastIndexOf [] c = - 1"
| "lastIndexOf (x # xs) c =
     (let r = lastIndexOf xs c
      in if 0 \<le> r then r + 1 else if x = c then 0 else - 1)"

text \<open>\<^verbatim>\<open>s.substring(0, e)\<close>: the end is clamped to \<open>0 .. length s\<close>.\<close>

definition substring0 :: "string \<Rightarrow> int \<Rightarrow> string" where
  "substring0 s e = take (nat e) s"

text \<open>
  \<^verbatim>\<open>new URL(relative, base).pathname\<close> is the browser's: \<open>resolvePath\<close> takes it as
  the parameter \<open>URL_pathname\<close>, \<open>None\<close> when the constructor throws a
  \<^verbatim>\<open>TypeError\<close>, which \<^verbatim>\<open>resolvePath\<close> does not catch.
\<close>

definition resolvePath ::
  "(string \<Rightarrow> string \<Rightarrow> string option) \<Rightarrow> string \<Rightarrow> string \<Rightarrow> string option" where
  "resolvePath URL_pathname base relative =
     (let baseDir = (if endsWith base ''/'' then base
                     else substring0 base (lastIndexOf base CHR ''/'' + 1))
      in case URL_pathname relative (''file://'' @ baseDir) of
           None \<Rightarrow> None
         | Some pathname \<Rightarrow>
             Some (if startsWith pathname ''/'' then pathname else ''/'' @ pathname))"

subsection \<open>The URL parser on plain path references\<close>

text \<open>
  The URL Standard's parser, for the inputs of the previewed pages: a base
  \<^verbatim>\<open>file://\<close> followed by an absolute path, and a reference, both made of letters,
  digits and \<^verbatim>\<open>. - _ ~ /\<close> only, with no two slashes in a row. On these no
  scheme, host, query, fragment, drive letter or percent-encoding arises, and the parser
  runs its file state, file slash state and path state alone. Outside this class
  \<open>URL_pathname_plain\<close> gives \<open>None\<close> and says nothing about the browser.
\<close>

definition plain_char :: "char \<Rightarrow> bool" where
  "plain_char c =
     (let n = (of_char c :: nat)
      in (97 \<le> n \<and> n \<le> 122) \<or> (65 \<le> n \<and> n \<le> 90) \<or> (48 \<le> n \<and> n \<le> 57) \<or>
         c \<in> set ''.-_~/'')"

text \<open>Shorten a path: remove its last segment, if any.\<close>

definition shorten :: "string list \<Rightarrow> string list" where
  "shorten segs = butlast segs"

text \<open>
  The path state at the end of a segment: \<open>buffer\<close> holds the segment, \<open>slash\<close> tells
  whether a \<^verbatim>\<open>/\<close> ended it (otherwise the input did).
\<close>

definition end_segment :: "string list \<Rightarrow> string \<Rightarrow> bool \<Rightarrow> string list" where
  "end_segment segs buffer slash =
     (if buffer = ''..'' then
        (if slash then shorten segs else shorten segs @ [[]])
      else if buffer = ''.'' then
        (if slash then segs else segs @ [[]])
      else segs @ [buffer])"

fun path_state :: "string list \<Rightarrow> string \<Rightarrow> string \<Rightarrow> string list" where
  "path_state segs buffer [] = end_segment segs buffer False"
| "path_state segs buffer (c # rest) =
     (if c = CHR ''/'' then path_state (end_segment segs buffer True) [] rest
      else path_state segs (buffer @ [c]) rest)"

text \<open>The \<^verbatim>\<open>pathname\<close> getter: every segment after a \<^verbatim>\<open>/\<close>.\<close>

definition pathname_of :: "string list \<Rightarrow> string" where
  "pathname_of segs = concat (map (\<lambda>seg. CHR ''/'' # seg) segs)"

definition strip_file_scheme :: "string \<Rightarrow> string option" where
  "strip_file_scheme base =
     (if prefix ''file://'' base then Some (drop 7 base) else None)"

definition URL_pathname_plain :: "string \<Rightarrow> string \<Rightarrow> string option" where
  "URL_pathname_plain relative base =
     (case strip_file_scheme base of
        None \<Rightarrow> None
      | Some baseDir \<Rightarrow>
          (if list_all plain_char baseDir \<and> startsWith baseDir ''/'' \<and>
              \<not> string_includes baseDir ''//'' \<and>
              list_all plain_char relative \<and> \<not> string_includes relative ''//''
           then
             (let basePath = path_state [] [] (tl baseDir)
              in Some (pathname_of
                   (if relative = [] then basePath
                    else if hd relative = CHR ''/'' then path_state [] [] (tl relative)
                    else path_state (shorten basePath) [] relative)))
           else None))"

section \<open>Archive export and import (\<^verbatim>\<open>handleDownloadProject\<close>, \<^verbatim>\<open>handleConfirmUnpack\<close>)\<close>

text \<open>
  The archive is the \<^verbatim>\<open>files\<close> object of JSZip: member names in insertion order,
  each with its \<^verbatim>\<open>dir\<close> flag and with what \<^verbatim>\<open>async('string')\<close> resolves to
  (\<open>None\<close> when it rejects). The bytes that \<^verbatim>\<open>generateAsync\<close> writes and
  \<^verbatim>\<open>loadAsync\<close> reads are the library's and are not modelled: unpacking is applied
  to the members that packing produced.
\<close>

datatype JSZipObject = JSZipObject (dir: bool) (async_string: "string option")

type_synonym JSZip = "(string \<times> JSZipObject) list"

text \<open>
  \<^verbatim>\<open>zip.file(name, content)\<close> is JSZip's \<^verbatim>\<open>fileAdd\<close> with the default options
  (\<^verbatim>\<open>dir: false\<close>, \<^verbatim>\<open>createFolders: true\<close>): it first adds a directory member for
  the parent folder of \<open>name\<close>, and so for every ancestor that the archive does not have
  yet, then adds or replaces the file member \<open>name\<close>.
\<close>

text \<open>\<^verbatim>\<open>forceTrailingSlash\<close>: \<^verbatim>\<open>path.slice(-1)\<close> is the last character, if any.\<close>

definition forceTrailingSlash :: "string \<Rightarrow> string" where
  "forceTrailingSlash p = (if p \<noteq> [] \<and> last p = CHR ''/'' then p else p @ ''/'')"

text \<open>
  \<^verbatim>\<open>parentFolder\<close>: without a trailing slash, what stands before the last slash, and
  the empty string when there is no slash after the first character.
\<close>

definition parentFolder :: "string \<Rightarrow> string" where
  "parentFolder p0 =
     (let p = (if p0 \<noteq> [] \<and> last p0 = CHR ''/'' then substring0 p0 (int (length p0) - 1) else p0);
          lastSlash = lastIndexOf p CHR ''/''
      in if lastSlash > 0 then substring0 p lastSlash else [])"

lemma lastIndexOf_less_length: "lastIndexOf s c < int (length s)"
  by (induction s) (auto simp: Let_def)

lemma length_substring0_le: "length (substring0 s e) \<le> length s"
  by (simp add: substring0_def)

lemma parentFolder_shorter:
  assumes "parentFolder (forceTrailingSlash name) \<noteq> []"
  shows "length (parentFolder (forceTrailingSlash name)) < length name"
proof (cases "name \<noteq> [] \<and> last name = CHR ''/''")
  case True
  then have f: "forceTrailingSlash name = name" by (simp add: forceTrailingSlash_def)
  let ?p = "substring0 name (int (length name) - 1)"
  have n: "nat (int (length name) - 1) = length name - 1" by linarith
  have "length ?p \<le> length name - 1"
    unfolding substring0_def n by simp
  moreover have "length (parentFolder name) \<le> length ?p"
    using True by (simp add: parentFolder_def Let_def length_substring0_le)
  ultimately have "length (parentFolder name) \<le> length name - 1" by (rule order_trans [rotated])
  then show ?thesis using True f by (cases name) auto
next
  case False
  then have f: "forceTrailingSlash name = name @ ''/''" by (auto simp: forceTrailingSlash_def)
  have "parentFolder (name @ ''/'') =
      (if lastIndexOf name CHR ''/'' > 0 then substring0 name (lastIndexOf name CHR ''/'') else [])"
    by (simp add: parentFolder_def Let_def substring0_def)
  with assms f lastIndexOf_less_length [of name "CHR ''/''"] show ?thesis
    by (auto simp: substring0_def split: if_splits)
qed

text \<open>
  \<^verbatim>\<open>folderAdd\<close>, which calls \<^verbatim>\<open>fileAdd\<close> with \<^verbatim>\<open>dir: true\<close> when the archive has
  no member of that name: the ancestors first, then the directory member itself, whose
  data is empty.
\<close>

function folderAdd :: "string \<Rightarrow> JSZip \<Rightarrow> JSZip" where
  "folderAdd name z =
     (if map_of z (forceTrailingSlash name) \<noteq> None then z
      else AList.update (forceTrailingSlash name) (JSZipObject True (Some []))
             (if parentFolder (forceTrailingSlash name) \<noteq> []
              then folderAdd (parentFolder (forceTrailingSlash name)) z
              else z))"
  by pat_completeness auto
termination
  by (relation "measure (\<lambda>(name, z). length name)") (auto simp: parentFolder_shorter)

definition zip_file :: "string \<Rightarrow> string \<Rightarrow> JSZip \<Rightarrow> JSZip" where
  "zip_file name content z =
     AList.update name (JSZipObject False (Some content))
       (if parentFolder name \<noteq> [] then folderAdd (parentFolder name) z else z)"

text \<open>The body of \<^verbatim>\<open>Object.keys(fileSystem).forEach\<close>; \<^verbatim>\<open>path.substring(1)\<close> is \<open>drop 1\<close>.\<close>

definition download_step :: "FileSystemState \<Rightarrow> JSZip \<Rightarrow> string \<Rightarrow> JSZip" where
  "download_step fs z p =
     (if endsWith p ''/.placeholder'' then z
      else (case lookup fs p of
              Some (Text content) \<Rightarrow> zip_file (drop 1 p) content z
            | _ \<Rightarrow> z))"

definition handleDownloadProject :: "FileSystemState \<Rightarrow> JSZip" where
  "handleDownloadProject fs = foldl (download_step fs) [] (keys fs)"

text \<open>
  \<^verbatim>\<open>s.trim()\<close> on the white space of ASCII (tab, line feed, vertical tab, form feed,
  carriage return, space).
\<close>

definition is_space :: "char \<Rightarrow> bool" where
  "is_space c = (let n = (of_char c :: nat) in (9 \<le> n \<and> n \<le> 13) \<or> n = 32)"

definition trim :: "string \<Rightarrow> string" where
  "trim s = rev (dropWhile is_space (rev (dropWhile is_space s)))"

text \<open>\<^verbatim>\<open>s.replace(pat, rep)\<close> with a string pattern: the first occurrence only.\<close>

fun replace_first :: "string \<Rightarrow> string \<Rightarrow> string \<Rightarrow> string" where
  "replace_first pat rep [] = (if pat = [] then rep else [])"
| "replace_first pat rep (c # cs) =
     (if prefix pat (c # cs) then rep @ drop (length pat) (c # cs)
      else c # replace_first pat rep cs)"

text \<open>The normalisation of the destination path.\<close>

definition cleanDestinationPath :: "string \<Rightarrow> string" where
  "cleanDestinationPath destinationPath =
     (let c0 = trim destinationPath;
          c1 = (if \<not> startsWith c0 ''/'' then ''/'' @ c0 else c0);
          c2 = (if endsWith c1 ''/'' then slice0 c1 (- 1) else c1)
      in if c2 = ''/'' then [] else c2)"

text \<open>
  The body of the loop over \<^verbatim>\<open>Object.entries(contents.files)\<close>, on the pair of
  \<^verbatim>\<open>newFileUpdates\<close> and \<^verbatim>\<open>fileList\<close>. A member that cannot be read as text is
  skipped with a warning.
\<close>

definition unpack_step ::
  "string \<Rightarrow> FileSystemState \<times> string list \<Rightarrow> string \<times> JSZipObject \<Rightarrow> FileSystemState \<times> string list" where
  "unpack_step cleanDest acc member =
     (case acc of (newFileUpdates, fileList) \<Rightarrow>
      case member of (relativePath, entry) \<Rightarrow>
        if \<not> dir entry then
          (case async_string entry of
             Some fileContent \<Rightarrow>
               (let fullPath = replace_first ''//'' ''/'' (cleanDest @ ''/'' @ relativePath)
                in (AList.update fullPath (Text fileContent) newFileUpdates,
                    fileList @ [relativePath]))
           | None \<Rightarrow> acc)
        else acc)"

definition unpack :: "JSZip \<Rightarrow> string \<Rightarrow> FileSystemState" where
  "unpack contents destinationPath =
     fst (foldl (unpack_step (cleanDestinationPath destinationPath)) ([], []) contents)"

text \<open>
  \<^verbatim>\<open>handleConfirmUnpack\<close> on the store. \<open>pendingZip\<close> is \<open>None\<close> when no archive is
  pending, \<open>Some None\<close> when \<^verbatim>\<open>loadAsync\<close> rejects it (the handler reports the error
  and writes nothing). Spreading a live table that is \<^verbatim>\<open>undefined\<close> copies nothing.
\<close>

definition handleConfirmUnpack :: "JSZip option option \<Rightarrow> string \<Rightarrow> StoreState \<Rightarrow> StoreState" where
  "handleConfirmUnpack pendingZip destinationPath state =
     (case pendingZip of
        None \<Rightarrow> state
      | Some None \<Rightarrow> state
      | Some (Some contents) \<Rightarrow>
          (let newFileUpdates = unpack contents destinationPath;
               newFs = spread (case fileSystem state of None \<Rightarrow> [] | Some fs \<Rightarrow> fs) newFileUpdates
           in setFileSystem newFs True state))"

text \<open>
  \<^verbatim>\<open>handleNewFile\<close>: the result is the alert shown, if any, and the store.
  \<^verbatim>\<open>fileSystem[path]\<close> throws when the live table is \<^verbatim>\<open>undefined\<close>.
\<close>

definition handleNewFile :: "string \<Rightarrow> StoreState \<Rightarrow> error + (string option \<times> StoreState)" where
  "handleNewFile p state =
     (case fileSystem state of
        None \<Rightarrow> Inl TypeError
      | Some fs \<Rightarrow>
          if lookup fs p \<noteq> None then Inr (Some ''File already exists at this path.'', state)
          else Inr (None, setFileSystem (spread fs [(p, Text [])]) True state))"

section \<open>The preview resolver (\<^verbatim>\<open>updatePreview\<close>)\<close>

subsection \<open>The document tree\<close>

text \<open>
  The part of the browser's DOM that \<^verbatim>\<open>updatePreview\<close> works on. An element has an
  identity (a number, unique in its document), a local name, its attributes in order and
  its children; the document holds its root element, \<open>None\<close> once that has been
  removed, and the next free identity. All elements are HTML elements: name spaces are
  not modelled, and names are in lower case, as the HTML parser leaves them.
\<close>

datatype node =
    Element nat string "(string \<times> string) list" "node list"
  | TextNode string
  | Comment string

record document =
  documentElement :: "node option"
  next_id :: nat

text \<open>An element and its descendant elements, in tree order.\<close>

fun elements :: "node \<Rightarrow> node list" where
  "elements (Element i t as cs) = Element i t as cs # concat (map elements cs)"
| "elements (TextNode s) = []"
| "elements (Comment s) = []"

definition is_node :: "nat \<Rightarrow> node \<Rightarrow> bool" where
  "is_node i n = (case n of Element j _ _ _ \<Rightarrow> j = i | _ \<Rightarrow> False)"

definition to_lower :: "char \<Rightarrow> char" where
  "to_lower c =
     (let n = (of_char c :: nat) in if 65 \<le> n \<and> n \<le> 90 then char_of (n + 32) else c)"

definition getAttribute :: "node \<Rightarrow> string \<Rightarrow> string option" where
  "getAttribute n a = (case n of Element _ _ as _ \<Rightarrow> map_of as a | _ \<Rightarrow> None)"

text \<open>
  The selectors \<^verbatim>\<open>link[rel="stylesheet"]\<close> and \<^verbatim>\<open>script\<close>. In an HTML document
  the value of \<^verbatim>\<open>rel\<close> is compared without regard to ASCII case.
\<close>

definition sel_link_stylesheet :: "node \<Rightarrow> bool" where
  "sel_link_stylesheet n =
     (case n of
        Element _ t as _ \<Rightarrow>
          t = ''link'' \<and>
          (case map_of as ''rel'' of Some v \<Rightarrow> map to_lower v = ''stylesheet'' | None \<Rightarrow> False)
      | _ \<Rightarrow> False)"

definition sel_script :: "node \<Rightarrow> bool" where
  "sel_script n = (case n of Element _ t _ _ \<Rightarrow> t = ''script'' | _ \<Rightarrow> False)"

text \<open>\<^verbatim>\<open>doc.querySelectorAll(sel)\<close>: a static list, in tree order.\<close>

definition querySelectorAll :: "(node \<Rightarrow> bool) \<Rightarrow> document \<Rightarrow> node list" where
  "querySelectorAll sel doc =
     (case documentElement doc of None \<Rightarrow> [] | Some root \<Rightarrow> filter sel (elements root))"

text \<open>\<^verbatim>\<open>doc.createElement(t)\<close>, \<^verbatim>\<open>el.textContent = s\<close>, \<^verbatim>\<open>el.setAttribute\<close>, \<^verbatim>\<open>el.removeAttribute\<close>.\<close>

definition createElement :: "string \<Rightarrow> document \<Rightarrow> node \<times> document" where
  "createElement t doc = (Element (next_id doc) t [] [], doc\<lparr>next_id := Suc (next_id doc)\<rparr>)"

definition set_textContent :: "string \<Rightarrow> node \<Rightarrow> node" where
  "set_textContent s n =
     (case n of
        Element i t as _ \<Rightarrow> Element i t as (if s = [] then [] else [TextNode s])
      | _ \<Rightarrow> n)"

definition setAttribute :: "string \<Rightarrow> string \<Rightarrow> node \<Rightarrow> node" where
  "setAttribute a v n =
     (case n of
        Element i t as cs \<Rightarrow> Element i t (AList.update (map to_lower a) v as) cs
      | _ \<Rightarrow> n)"

definition removeAttribute :: "string \<Rightarrow> node \<Rightarrow> node" where
  "removeAttribute a n =
     (case n of Element i t as cs \<Rightarrow> Element i t (AList.delete a as) cs | _ \<Rightarrow> n)"

text \<open>
  \<^verbatim>\<open>el.remove()\<close>: the element leaves the tree, with its subtree. An element that is
  no longer in the document is not found, and the document stays as it is.
\<close>

fun remove_below :: "nat \<Rightarrow> node \<Rightarrow> node" where
  "remove_below i (Element j t as cs) =
     Element j t as (map (remove_below i) (filter (\<lambda>c. \<not> is_node i c) cs))"
| "remove_below i (TextNode s) = TextNode s"
| "remove_below i (Comment s) = Comment s"

definition remove :: "node \<Rightarrow> document \<Rightarrow> document" where
  "remove el doc =
     (case el of
        Element i _ _ _ \<Rightarrow>
          (case documentElement doc of
             None \<Rightarrow> doc
           | Some root \<Rightarrow>
               if is_node i root then doc\<lparr>documentElement := None\<rparr>
               else doc\<lparr>documentElement := Some (remove_below i root)\<rparr>)
      | _ \<Rightarrow> doc)"

text \<open>\<^verbatim>\<open>old.parentNode?.replaceChild(new, old)\<close>.\<close>

fun replace_below :: "nat \<Rightarrow> node \<Rightarrow> node \<Rightarrow> node" where
  "replace_below i new (Element j t as cs) =
     Element j t as (map (\<lambda>c. if is_node i c then new else replace_below i new c) cs)"
| "replace_below i new (TextNode s) = TextNode s"
| "replace_below i new (Comment s) = Comment s"

definition replaceChild :: "node \<Rightarrow> node \<Rightarrow> document \<Rightarrow> document" where
  "replaceChild new old doc =
     (case old of
        Element i _ _ _ \<Rightarrow>
          (case documentElement doc of
             None \<Rightarrow> doc
           | Some root \<Rightarrow>
               if is_node i root then doc\<lparr>documentElement := Some new\<rparr>
               else doc\<lparr>documentElement := Some (replace_below i new root)\<rparr>)
      | _ \<Rightarrow> doc)"

text \<open>
  \<^verbatim>\<open>doc.head.appendChild(n)\<close>. \<^verbatim>\<open>doc.head\<close> is the first \<^verbatim>\<open>head\<close> child of the
  root when the root is an \<^verbatim>\<open>html\<close> element, and \<^verbatim>\<open>null\<close> otherwise; the call
  on \<^verbatim>\<open>null\<close> throws (\<open>None\<close>).
\<close>

fun append_to_head :: "node \<Rightarrow> node list \<Rightarrow> node list option" where
  "append_to_head n [] = None"
| "append_to_head n (Element j t as cs # rest) =
     (if t = ''head'' then Some (Element j t as (cs @ [n]) # rest)
      else map_option ((#) (Element j t as cs)) (append_to_head n rest))"
| "append_to_head n (TextNode s # rest) = map_option ((#) (TextNode s)) (append_to_head n rest)"
| "append_to_head n (Comment s # rest) = map_option ((#) (Comment s)) (append_to_head n rest)"

definition head_appendChild :: "node \<Rightarrow> document \<Rightarrow> document option" where
  "head_appendChild n doc =
     (case documentElement doc of
        Some (Element i t as cs) \<Rightarrow>
          (if t = ''html'' then
             (case append_to_head n cs of
                None \<Rightarrow> None
              | Some cs' \<Rightarrow> Some (doc\<lparr>documentElement := Some (Element i t as cs')\<rparr>))
           else None)
      | _ \<Rightarrow> None)"

subsection \<open>Serialisation (\<^verbatim>\<open>outerHTML\<close>)\<close>

text \<open>
  The HTML fragment serialisation algorithm: void elements have neither children nor end
  tag; the text inside \<^verbatim>\<open>style\<close>, \<^verbatim>\<open>script\<close> and the other raw text elements is
  written as it is, other text and attribute values are escaped. (The no-break space,
  which is escaped too, is not a character of this model.)
\<close>

definition void_elements :: "string list" where
  "void_elements =
     [''area'', ''base'', ''basefont'', ''bgsound'', ''br'', ''col'', ''embed'', ''frame'',
      ''hr'', ''img'', ''input'', ''keygen'', ''link'', ''meta'', ''param'', ''source'',
      ''track'', ''wbr'']"

definition raw_text_elements :: "string list" where
  "raw_text_elements =
     [''style'', ''script'', ''xmp'', ''iframe'', ''noembed'', ''noframes'', ''plaintext'']"

definition escape_text :: "string \<Rightarrow> string" where
  "escape_text s =
     concat (map (\<lambda>c. if c = CHR ''&'' then ''&amp;''
                       else if c = CHR ''<'' then ''&lt;''
                       else if c = CHR ''>'' then ''&gt;''
                       else [c]) s)"

definition escape_attribute :: "string \<Rightarrow> string" where
  \<open>escape_attribute s =
     concat (map (\<lambda>c. if c = CHR ''&'' then ''&amp;''
                       else if c = CHR 0x22 then ''&quot;''
                       else if c = CHR ''<'' then ''&lt;''
                       else if c = CHR ''>'' then ''&gt;''
                       else [c]) s)\<close>

definition serialize_attribute :: "string \<times> string \<Rightarrow> string" where
  \<open>serialize_attribute av =
     '' '' @ fst av @ ''="'' @ escape_attribute (snd av) @ ''"''\<close>

fun serialize :: "bool \<Rightarrow> node \<Rightarrow> string" where
  "serialize raw (Element i t as cs) =
     ''<'' @ t @ concat (map serialize_attribute as) @ ''>'' @
     (if t \<in> set void_elements then []
      else concat (map (serialize (t \<in> set raw_text_elements)) cs) @ ''</'' @ t @ ''>'')"
| "serialize raw (TextNode s) = (if raw then s else escape_text s)"
| "serialize raw (Comment s) = ''<!--'' @ s @ ''-->''"

definition outerHTML :: "node \<Rightarrow> string" where
  "outerHTML n = serialize False n"

subsection \<open>The resolver\<close>

text \<open>A \<^verbatim>\<open>forEach\<close> whose body may throw: the first error ends the loop.\<close>

fun forEach :: "('s \<Rightarrow> 'a \<Rightarrow> error + 's) \<Rightarrow> 'a list \<Rightarrow> 's \<Rightarrow> error + 's" where
  "forEach f [] s = Inr s"
| "forEach f (x # xs) s = (case f s x of Inl e \<Rightarrow> Inl e | Inr s' \<Rightarrow> forEach f xs s')"

text \<open>The body of the loop over the style sheet links.\<close>

definition inline_link ::
  "(string \<Rightarrow> string \<Rightarrow> string option) \<Rightarrow> FileSystemState \<Rightarrow> string \<Rightarrow> document \<Rightarrow> node
     \<Rightarrow> error + document" where
  "inline_link URL_pathname fs htmlPath doc link =
     (case getAttribute link ''href'' of
        None \<Rightarrow> Inr doc
      | Some href \<Rightarrow>
          if href \<noteq> [] \<and> \<not> startsWith href ''http'' then
            (case resolvePath URL_pathname htmlPath href of
               None \<Rightarrow> Inl TypeError
             | Some cssPath \<Rightarrow>
                 (case lookup fs cssPath of
                    Some (Text cssContent) \<Rightarrow>
                      (case createElement ''style'' doc of (style0, doc1) \<Rightarrow>
                         (case head_appendChild (set_textContent cssContent style0) doc1 of
                            None \<Rightarrow> Inl TypeError
                          | Some doc2 \<Rightarrow> Inr (remove link doc2)))
                  | _ \<Rightarrow> Inr doc))
          else Inr doc)"

text \<open>The body of the loop over the scripts.\<close>

definition attributes :: "node \<Rightarrow> (string \<times> string) list" where
  "attributes n = (case n of Element _ _ as _ \<Rightarrow> as | _ \<Rightarrow> [])"

definition inline_script ::
  "(string \<Rightarrow> string \<Rightarrow> string option) \<Rightarrow> FileSystemState \<Rightarrow> string \<Rightarrow> document \<Rightarrow> node
     \<Rightarrow> error + document" where
  "inline_script URL_pathname fs htmlPath doc script =
     (case getAttribute script ''src'' of
        None \<Rightarrow> Inr doc
      | Some src \<Rightarrow>
          if src \<noteq> [] \<and> \<not> startsWith src ''http'' then
            (case resolvePath URL_pathname htmlPath src of
               None \<Rightarrow> Inl TypeError
             | Some jsPath \<Rightarrow>
                 (case lookup fs jsPath of
                    Some (Text jsContent) \<Rightarrow>
                      (case createElement ''script'' doc of (newScript0, doc1) \<Rightarrow>
                         (let newScript1 = set_textContent jsContent newScript0;
                              newScript2 = foldl (\<lambda>n av. setAttribute (fst av) (snd av) n)
                                             newScript1 (attributes script);
                              newScript = removeAttribute ''src'' newScript2
                          in Inr (replaceChild newScript script doc1)))
                  | _ \<Rightarrow> Inr doc))
          else Inr doc)"

text \<open>
  The branch for an \<^verbatim>\<open>index.html\<close> that is text: parse, inline the style sheets,
  then the scripts, and serialise the root element after the doctype.
\<close>

definition render_html ::
  "(string \<Rightarrow> document) \<Rightarrow> (string \<Rightarrow> string \<Rightarrow> string option) \<Rightarrow> FileSystemState \<Rightarrow> string
     \<Rightarrow> string \<Rightarrow> error + string" where
  "render_html parseFromString URL_pathname fs htmlPath indexHtml =
     (let doc = parseFromString indexHtml
      in case forEach (inline_link URL_pathname fs htmlPath)
                (querySelectorAll sel_link_stylesheet doc) doc of
           Inl e \<Rightarrow> Inl e
         | Inr doc1 \<Rightarrow>
             (case forEach (inline_script URL_pathname fs htmlPath)
                     (querySelectorAll sel_script doc1) doc1 of
                Inl e \<Rightarrow> Inl e
              | Inr doc2 \<Rightarrow>
                  (case documentElement doc2 of
                     None \<Rightarrow> Inl TypeError
                   | Some root \<Rightarrow> Inr (''<!DOCTYPE html>'' @ outerHTML root))))"

text \<open>The other branches.\<close>

definition select_root_doc :: string where
  \<open>select_root_doc =
     ''<html><body><h1 style="color: #ccc; font-family: sans-serif;">Select a preview root directory.</h1></body></html>''\<close>

definition no_preview_doc :: string where
  \<open>no_preview_doc =
     ''<html><body><h1 style="color: #ccc; font-family: sans-serif; text-align: center; margin-top: 2rem;">No previewable file found.</h1><p style="color: #999; font-family: sans-serif; text-align: center;">Create an index.html, README.md, index.tsx, or similar file in this directory to see a preview.</p></body></html>''\<close>

definition scriptFileNames :: "string list" where
  "scriptFileNames =
     [''index.tsx'', ''index.jsx'', ''App.tsx'', ''App.jsx'', ''main.tsx'', ''main.jsx'',
      ''index.ts'', ''index.js'', ''App.ts'', ''App.js'', ''main.ts'', ''main.js'']"

fun find_script :: "FileSystemState \<Rightarrow> string list \<Rightarrow> (string \<times> string) option" where
  "find_script fs [] = None"
| "find_script fs (p # ps) =
     (case lookup fs p of Some (Text content) \<Rightarrow> Some (p, content) | _ \<Rightarrow> find_script fs ps)"

definition escape_code :: "string \<Rightarrow> string" where
  \<open>escape_code s =
     concat (map (\<lambda>c. if c = CHR ''&'' then ''&amp;''
                       else if c = CHR ''<'' then ''&lt;''
                       else if c = CHR ''>'' then ''&gt;''
                       else if c = CHR 0x22 then ''&quot;''
                       else if c = CHR 0x27 then ''&#039;''
                       else [c]) s)\<close>

text \<open>\<^verbatim>\<open>p.split('/').pop()\<close>: what follows the last slash.\<close>

definition last_segment :: "string \<Rightarrow> string" where
  "last_segment p = drop (nat (lastIndexOf p CHR ''/'' + 1)) p"

text \<open>
  What \<^verbatim>\<open>updatePreview\<close> takes from outside the table and the root: the browser's
  \<^verbatim>\<open>DOMParser\<close> and \<^verbatim>\<open>URL\<close>, the Markdown renderer \<^verbatim>\<open>marked.parse\<close>, and the
  two long document templates of the source, as functions of the values spliced into
  them (title and rendered Markdown; file name and escaped code).
\<close>

record preview_env =
  env_parseFromString :: "string \<Rightarrow> document"
  env_URL_pathname :: "string \<Rightarrow> string \<Rightarrow> string option"
  env_marked_parse :: "string \<Rightarrow> string"
  env_mdSrcDoc :: "string \<Rightarrow> string \<Rightarrow> string"
  env_codeSrcDoc :: "string \<Rightarrow> string \<Rightarrow> string"

definition truthy :: "content option \<Rightarrow> bool" where
  "truthy v = (case v of Some (Text s) \<Rightarrow> s \<noteq> [] | _ \<Rightarrow> False)"

definition is_string :: "content option \<Rightarrow> bool" where
  "is_string v = (case v of Some (Text _) \<Rightarrow> True | _ \<Rightarrow> False)"

definition text_or_empty :: "content option \<Rightarrow> string" where
  "text_or_empty v = (case v of Some (Text s) \<Rightarrow> s | _ \<Rightarrow> [])"

text \<open>
  \<^verbatim>\<open>updatePreview\<close>: the value it passes to \<^verbatim>\<open>setSrcDoc\<close>, or the error it throws.
  A preview root that is \<^verbatim>\<open>null\<close> or empty is falsy.
\<close>

definition updatePreview :: "preview_env \<Rightarrow> FileSystemState \<Rightarrow> string option \<Rightarrow> error + string" where
  "updatePreview env fs previewRoot =
     (case previewRoot of
        None \<Rightarrow> Inr select_root_doc
      | Some root \<Rightarrow>
          if root = [] then Inr select_root_doc
          else
            (let basePath = (if root = ''/'' then ''/''
                             else if endsWith root ''/'' then root else root @ ''/'');
                 htmlPath = basePath @ ''index.html'';
                 readmeMdPath = basePath @ ''README.md'';
                 indexMdPath = basePath @ ''index.md'';
                 scriptFilePaths = map (\<lambda>name. basePath @ name) scriptFileNames;
                 indexHtml = lookup fs htmlPath;
                 readmeMd = lookup fs readmeMdPath;
                 indexMd = lookup fs indexMdPath;
                 scriptFileToRender = find_script fs scriptFilePaths
             in case indexHtml of
                  Some (Text html) \<Rightarrow>
                    render_html (env_parseFromString env) (env_URL_pathname env) fs htmlPath html
                | _ \<Rightarrow>
                    if is_string readmeMd \<or> is_string indexMd then
                      (let mdContent = (if truthy readmeMd then text_or_empty readmeMd
                                        else if truthy indexMd then text_or_empty indexMd
                                        else []);
                           mdHtml = env_marked_parse env mdContent
                       in Inr (env_mdSrcDoc env
                                 (if truthy readmeMd then ''README.md'' else ''index.md'') mdHtml))
                    else
                      (case scriptFileToRender of
                         Some (p, content) \<Rightarrow>
                           Inr (env_codeSrcDoc env (last_segment p) (escape_code content))
                       | None \<Rightarrow> Inr no_preview_doc)))"


section \<open>Properties of the snapshot history\<close>

lemma slice0_in_range: "0 \<le> e \<Longrightarrow> slice0 xs e = take (nat e) xs"
  by (simp add: slice0_def Let_def min_def)

lemma at_tip_load: "at_tip (loadStateFromDB ini readme reg saved st)"
  by (simp add: at_tip_def loadStateFromDB_def Let_def split: option.splits)

lemma at_tip_set: "at_tip (setFileSystem fs True s)"
  by (simp add: at_tip_def setFileSystem_def Let_def)

lemma at_tip_writes: "at_tip s \<Longrightarrow> at_tip (writes True fss s)"
proof (induction fss arbitrary: s)
  case Nil
  then show ?case by (simp add: writes_def)
next
  case (Cons fs fss)
  have "at_tip (setFileSystem fs True s)" by (rule at_tip_set)
  then have "at_tip (writes True fss (setFileSystem fs True s))" by (rule Cons.IH)
  then show ?case by (simp add: writes_def)
qed

text \<open>\<open>n\<close> steps back from a cursor that is in range, and \<open>n\<close> steps forward.\<close>

lemma undo_funpow:
  assumes "int n \<le> currentHistoryIndex s"
    and "currentHistoryIndex s < int (length (fileSystemHistory s))"
  shows "(undo ^^ n) s =
     (if n = 0 then s
      else s\<lparr>fileSystem := Some (fileSystemHistory s ! nat (currentHistoryIndex s - int n)),
             currentHistoryIndex := currentHistoryIndex s - int n\<rparr>)"
  using assms
proof (induction n)
  case 0
  then show ?case by simp
next
  case (Suc n)
  then have IH: "(undo ^^ n) s =
     (if n = 0 then s
      else s\<lparr>fileSystem := Some (fileSystemHistory s ! nat (currentHistoryIndex s - int n)),
             currentHistoryIndex := currentHistoryIndex s - int n\<rparr>)"
    by simp
  have step: "(undo ^^ Suc n) s = undo ((undo ^^ n) s)" by simp
  show ?case
  proof (cases "n = 0")
    case True
    with Suc.prems show ?thesis unfolding step by (simp add: undo_def at_index_def Let_def)
  next
    case False
    with Suc.prems show ?thesis unfolding step IH
      by (simp add: undo_def at_index_def Let_def diff_diff_eq add.commute)
  qed
qed

lemma redo_funpow:
  assumes "0 \<le> currentHistoryIndex s"
    and "currentHistoryIndex s + int n < int (length (fileSystemHistory s))"
  shows "(redo ^^ n) s =
     (if n = 0 then s
      else s\<lparr>fileSystem := Some (fileSystemHistory s ! nat (currentHistoryIndex s + int n)),
             currentHistoryIndex := currentHistoryIndex s + int n\<rparr>)"
  using assms
proof (induction n)
  case 0
  then show ?case by simp
next
  case (Suc n)
  then have IH: "(redo ^^ n) s =
     (if n = 0 then s
      else s\<lparr>fileSystem := Some (fileSystemHistory s ! nat (currentHistoryIndex s + int n)),
             currentHistoryIndex := currentHistoryIndex s + int n\<rparr>)"
    by simp
  have step: "(redo ^^ Suc n) s = redo ((redo ^^ n) s)" by simp
  show ?case
  proof (cases "n = 0")
    case True
    with Suc.prems show ?thesis unfolding step by (simp add: redo_def at_index_def Let_def)
  next
    case False
    with Suc.prems show ?thesis unfolding step IH
      by (simp add: redo_def at_index_def Let_def add.commute add.left_commute)
  qed
qed

lemma undo_redo_at_tip:
  assumes tip: "at_tip s" and n: "int n \<le> currentHistoryIndex s"
  shows "(redo ^^ n) ((undo ^^ n) s) = s"
proof (cases "n = 0")
  case True
  then show ?thesis by simp
next
  case False
  let ?h = "fileSystemHistory s"
  let ?i = "currentHistoryIndex s"
  from tip have len: "?i = int (length ?h) - 1" and ne: "?h \<noteq> []"
    and live: "fileSystem s = Some (last ?h)"
    by (simp_all add: at_tip_def)
  have u: "(undo ^^ n) s =
      s\<lparr>fileSystem := Some (?h ! nat (?i - int n)), currentHistoryIndex := ?i - int n\<rparr>"
    using undo_funpow [of n s] n len False by simp
  let ?u = "s\<lparr>fileSystem := Some (?h ! nat (?i - int n)), currentHistoryIndex := ?i - int n\<rparr>"
  have r: "(redo ^^ n) ?u = ?u\<lparr>fileSystem := Some (?h ! nat ?i), currentHistoryIndex := ?i\<rparr>"
    using redo_funpow [of ?u n] n len False by simp
  have "nat ?i = length ?h - 1" using len by simp
  then have "?h ! nat ?i = last ?h"
    using ne by (simp add: last_conv_nth)
  with u r live show ?thesis by simp
qed

lemma writes_False:
  "writes False fss s = (if fss = [] then s else s\<lparr>fileSystem := Some (last fss)\<rparr>)"
proof (induction fss arbitrary: s)
  case Nil
  then show ?case by (simp add: writes_def)
next
  case (Cons fs fss)
  have "writes False (fs # fss) s = writes False fss (setFileSystem fs False s)"
    by (simp add: writes_def)
  then show ?case using Cons.IH [of "setFileSystem fs False s"]
    by (simp add: setFileSystem_def)
qed

text \<open>
  C1. After \<^verbatim>\<open>loadStateFromDB\<close> and any sequence of writes that record a snapshot,
  \<open>n\<close> calls of \<^verbatim>\<open>undo\<close> followed by \<open>n\<close> calls of \<^verbatim>\<open>redo\<close>, for \<open>n\<close> at most the
  number of snapshots before the cursor, give back the live table that was there before
  the first \<^verbatim>\<open>undo\<close>.
\<close>

theorem undo_redo_restores:
  assumes "s = writes True fss (loadStateFromDB ini readme reg saved st)"
    and "int n \<le> currentHistoryIndex s"
  shows "fileSystem ((redo ^^ n) ((undo ^^ n) s)) = fileSystem s"
proof -
  have "at_tip s" using assms(1) by (simp add: at_tip_writes at_tip_load)
  then show ?thesis using assms(2) by (simp add: undo_redo_at_tip)
qed

theorem undo_redo_restores_witness:
  "int 2 \<le> currentHistoryIndex
      (writes True [[(''/a.txt'', Text ''x'')], [(''/a.txt'', Text ''y'')]]
        (loadStateFromDB [(''/a.txt'', Text [])] ''r'' ''t'' None initialStore)) \<and>
   fileSystem ((redo ^^ 2) ((undo ^^ 2)
      (writes True [[(''/a.txt'', Text ''x'')], [(''/a.txt'', Text ''y'')]]
        (loadStateFromDB [(''/a.txt'', Text [])] ''r'' ''t'' None initialStore)))) =
   Some [(''/a.txt'', Text ''y'')]"
proof -
  let ?s = "writes True [[(''/a.txt'', Text ''x'')], [(''/a.txt'', Text ''y'')]]
        (loadStateFromDB [(''/a.txt'', Text [])] ''r'' ''t'' None initialStore)"
  have h: "int 2 \<le> currentHistoryIndex ?s"
    by (simp add: writes_def loadStateFromDB_def initialStore_def setFileSystem_def
        slice0_def Let_def)
  have live: "fileSystem ?s = Some [(''/a.txt'', Text ''y'')]"
    by (simp add: writes_def loadStateFromDB_def initialStore_def setFileSystem_def
        slice0_def Let_def)
  from undo_redo_restores [OF refl h] h live show ?thesis by simp
qed

text \<open>
  C2. When the cursor is strictly before the last snapshot, as it is after
  \<^verbatim>\<open>undo\<close>, a write that records a snapshot keeps the snapshots up to the cursor,
  drops those after it, appends the new one, moves the cursor to the new last index, and
  leaves \<^verbatim>\<open>canRedo()\<close> false.
\<close>

theorem snapshot_after_undo_discards_redo:
  assumes "0 \<le> currentHistoryIndex s"
    and "currentHistoryIndex s < int (length (fileSystemHistory s)) - 1"
  shows "fileSystemHistory (setFileSystem fs True s) =
           take (nat (currentHistoryIndex s) + 1) (fileSystemHistory s) @ [fs] \<and>
         currentHistoryIndex (setFileSystem fs True s) =
           int (length (fileSystemHistory (setFileSystem fs True s))) - 1 \<and>
         currentHistoryIndex (setFileSystem fs True s) = currentHistoryIndex s + 1 \<and>
         fileSystem (setFileSystem fs True s) = Some fs \<and>
         \<not> canRedo (setFileSystem fs True s)"
proof -
  have n: "nat (currentHistoryIndex s + 1) = nat (currentHistoryIndex s) + 1"
    using assms(1) by simp
  have "slice0 (fileSystemHistory s) (currentHistoryIndex s + 1) =
        take (nat (currentHistoryIndex s) + 1) (fileSystemHistory s)"
    using assms(1) n by (simp add: slice0_in_range)
  moreover have "length (take (nat (currentHistoryIndex s) + 1) (fileSystemHistory s)) =
        nat (currentHistoryIndex s) + 1"
    using assms by simp
  ultimately show ?thesis
    using assms(1) by (simp add: setFileSystem_def canRedo_def Let_def)
qed

text \<open>
  An instance: three snapshots, then one \<^verbatim>\<open>undo\<close>, so that the cursor is at the
  second.
\<close>

lemma undone_state:
  "undo (writes True [[(''/a.txt'', Text ''x'')], [(''/a.txt'', Text ''y'')]]
      (loadStateFromDB [(''/a.txt'', Text [])] ''r'' ''t'' None initialStore)) =
   \<lparr>fileSystem = Some [(''/a.txt'', Text ''x'')],
    fileSystemHistory =
      [[(''/a.txt'', Text [])], [(''/a.txt'', Text ''x'')], [(''/a.txt'', Text ''y'')]],
    currentHistoryIndex = 1\<rparr>"
  by (simp add: writes_def loadStateFromDB_def initialStore_def setFileSystem_def
      undo_def slice0_def at_index_def Let_def)

theorem snapshot_after_undo_discards_redo_witness:
  "fileSystemHistory (setFileSystem [(''/b.txt'', Text ''z'')] True
     (undo (writes True [[(''/a.txt'', Text ''x'')], [(''/a.txt'', Text ''y'')]]
        (loadStateFromDB [(''/a.txt'', Text [])] ''r'' ''t'' None initialStore)))) =
     [[(''/a.txt'', Text [])], [(''/a.txt'', Text ''x'')], [(''/b.txt'', Text ''z'')]] \<and>
   \<not> canRedo (setFileSystem [(''/b.txt'', Text ''z'')] True
     (undo (writes True [[(''/a.txt'', Text ''x'')], [(''/a.txt'', Text ''y'')]]
        (loadStateFromDB [(''/a.txt'', Text [])] ''r'' ''t'' None initialStore))))"
proof -
  let ?s = "\<lparr>fileSystem = Some [(''/a.txt'', Text ''x'')],
    fileSystemHistory =
      [[(''/a.txt'', Text [])], [(''/a.txt'', Text ''x'')], [(''/a.txt'', Text ''y'')]],
    currentHistoryIndex = 1\<rparr>"
  have h1: "0 \<le> currentHistoryIndex ?s" by simp
  have h2: "currentHistoryIndex ?s < int (length (fileSystemHistory ?s)) - 1" by simp
  from snapshot_after_undo_discards_redo [OF h1 h2, of "[(''/b.txt'', Text ''z'')]"]
  show ?thesis unfolding undone_state by simp
qed

text \<open>
  C8. \<^verbatim>\<open>undo\<close> with the cursor at the first snapshot and \<^verbatim>\<open>redo\<close> with the cursor
  at the last one return the state they were given: live table, snapshots and cursor
  are unchanged, and neither operation has an error result. \<^verbatim>\<open>canUndo()\<close> holds
  exactly when the cursor is past the first snapshot, \<^verbatim>\<open>canRedo()\<close> exactly when it
  is before the last.
\<close>

theorem undo_redo_boundaries:
  "(currentHistoryIndex s = 0 \<longrightarrow> undo s = s) \<and>
   (currentHistoryIndex s = int (length (fileSystemHistory s)) - 1 \<longrightarrow> redo s = s) \<and>
   (canUndo s \<longleftrightarrow> 0 < currentHistoryIndex s) \<and>
   (canRedo s \<longleftrightarrow> currentHistoryIndex s < int (length (fileSystemHistory s)) - 1)"
  by (simp add: undo_def redo_def canUndo_def canRedo_def)

theorem undo_redo_boundaries_witness:
  "undo \<lparr>fileSystem = Some [(''/a.txt'', Text ''x'')],
         fileSystemHistory = [[(''/a.txt'', Text ''x'')]],
         currentHistoryIndex = 0\<rparr> =
     \<lparr>fileSystem = Some [(''/a.txt'', Text ''x'')],
      fileSystemHistory = [[(''/a.txt'', Text ''x'')]],
      currentHistoryIndex = 0\<rparr> \<and>
   redo \<lparr>fileSystem = Some [(''/a.txt'', Text ''x'')],
         fileSystemHistory = [[(''/a.txt'', Text ''x'')]],
         currentHistoryIndex = 0\<rparr> =
     \<lparr>fileSystem = Some [(''/a.txt'', Text ''x'')],
      fileSystemHistory = [[(''/a.txt'', Text ''x'')]],
      currentHistoryIndex = 0\<rparr>"
  using undo_redo_boundaries [of "\<lparr>fileSystem = Some [(''/a.txt'', Text ''x'')],
         fileSystemHistory = [[(''/a.txt'', Text ''x'')]],
         currentHistoryIndex = 0\<rparr>"]
  by simp

text \<open>
  C9. A write with \<^verbatim>\<open>snapshot = false\<close> changes the live table only. After any
  number of such writes the snapshots and the cursor are those of before, and one
  \<^verbatim>\<open>undo\<close>, with a snapshot before the cursor, makes that snapshot the live table:
  the unsnapshotted writes are all discarded.
\<close>

theorem unsnapshotted_writes_frame:
  "setFileSystem fs False s = s\<lparr>fileSystem := Some fs\<rparr> \<and>
   fileSystemHistory (writes False fss s) = fileSystemHistory s \<and>
   currentHistoryIndex (writes False fss s) = currentHistoryIndex s \<and>
   (0 < currentHistoryIndex s \<and> currentHistoryIndex s \<le> int (length (fileSystemHistory s)) \<longrightarrow>
      undo (writes False fss s) =
        s\<lparr>fileSystem := Some (fileSystemHistory s ! nat (currentHistoryIndex s - 1)),
          currentHistoryIndex := currentHistoryIndex s - 1\<rparr>)"
  by (simp add: writes_False setFileSystem_def undo_def at_index_def Let_def)

theorem unsnapshotted_writes_frame_witness:
  "undo (writes False [[(''/a.txt'', Text ''p'')], [(''/a.txt'', Text ''pq'')]]
     \<lparr>fileSystem = Some [(''/a.txt'', Text ''x'')],
      fileSystemHistory = [[(''/a.txt'', Text [])], [(''/a.txt'', Text ''x'')]],
      currentHistoryIndex = 1\<rparr>) =
   \<lparr>fileSystem = Some [(''/a.txt'', Text [])],
    fileSystemHistory = [[(''/a.txt'', Text [])], [(''/a.txt'', Text ''x'')]],
    currentHistoryIndex = 0\<rparr>"
  using unsnapshotted_writes_frame [of _ "\<lparr>fileSystem = Some [(''/a.txt'', Text ''x'')],
      fileSystemHistory = [[(''/a.txt'', Text [])], [(''/a.txt'', Text ''x'')]],
      currentHistoryIndex = 1\<rparr>" "[[(''/a.txt'', Text ''p'')], [(''/a.txt'', Text ''pq'')]]"]
  by simp

section \<open>Properties of the changed-files calculator\<close>

lemma changes_step_same: "changes_step t t acc p = acc"
  by (simp add: changes_step_def Let_def)

lemma foldl_changes_step_same: "foldl (changes_step t t) acc ps = acc"
  by (induction ps) (simp_all add: changes_step_same)

lemma lookup_Some_in_keys: "lookup t p = Some v \<Longrightarrow> p \<in> set (keys t)"
  by (auto simp: lookup_def keys_def dest: map_of_SomeD intro: rev_image_eqI)

text \<open>
  C3 says that a path whose current entry is the unfetched marker and whose baseline
  entry is text is treated as unchanged. The calculator does not do that: it reports the
  path as modified. The state arises in use. \<^verbatim>\<open>handleLoadRepo\<close> writes the table of
  markers with a snapshot and makes it the baseline; \<^verbatim>\<open>handleFileSelect\<close> writes the
  fetched text into the live table without a snapshot, and into the baseline, and the
  calculator then reports nothing; \<^verbatim>\<open>undo\<close> followed by \<^verbatim>\<open>redo\<close> makes the snapshot
  of markers the live table again, and the file that nobody edited is reported as
  modified.
\<close>

theorem unfetched_after_undo_redo_reported_modified:
  "changedFiles
     (fileSystem (setFileSystem (spread [(''/a.txt'', Unfetched)] [(''/a.txt'', Text ''hi'')]) False
        (setFileSystem [(''/a.txt'', Unfetched)] True
           (loadStateFromDB [(''/README.md'', Text ''r'')] ''r'' ''t'' None initialStore))))
     (Some (spread [(''/a.txt'', Unfetched)] [(''/a.txt'', Text ''hi'')])) = Inr [] \<and>
   fileSystem (redo (undo
     (setFileSystem (spread [(''/a.txt'', Unfetched)] [(''/a.txt'', Text ''hi'')]) False
        (setFileSystem [(''/a.txt'', Unfetched)] True
           (loadStateFromDB [(''/README.md'', Text ''r'')] ''r'' ''t'' None initialStore))))) =
     Some [(''/a.txt'', Unfetched)] \<and>
   changedFiles
     (fileSystem (redo (undo
        (setFileSystem (spread [(''/a.txt'', Unfetched)] [(''/a.txt'', Text ''hi'')]) False
           (setFileSystem [(''/a.txt'', Unfetched)] True
              (loadStateFromDB [(''/README.md'', Text ''r'')] ''r'' ''t'' None initialStore))))))
     (Some (spread [(''/a.txt'', Unfetched)] [(''/a.txt'', Text ''hi'')])) =
     Inr [\<lparr>path = ''/a.txt'', status = Modified\<rparr>]"
proof -
  have b: "spread [(''/a.txt'', Unfetched)] [(''/a.txt'', Text ''hi'')] = [(''/a.txt'', Text ''hi'')]"
    by (simp add: spread_def)
  let ?s = "setFileSystem [(''/a.txt'', Text ''hi'')] False
        (setFileSystem [(''/a.txt'', Unfetched)] True
           (loadStateFromDB [(''/README.md'', Text ''r'')] ''r'' ''t'' None initialStore))"
  have s: "?s = \<lparr>fileSystem = Some [(''/a.txt'', Text ''hi'')],
      fileSystemHistory = [[(''/README.md'', Text ''r'')], [(''/a.txt'', Unfetched)]],
      currentHistoryIndex = 1\<rparr>"
    by (simp add: setFileSystem_def loadStateFromDB_def initialStore_def slice0_def Let_def)
  have r: "redo (undo ?s) = \<lparr>fileSystem = Some [(''/a.txt'', Unfetched)],
      fileSystemHistory = [[(''/README.md'', Text ''r'')], [(''/a.txt'', Unfetched)]],
      currentHistoryIndex = 1\<rparr>"
    unfolding s by (simp add: undo_def redo_def at_index_def Let_def)
  have 1: "changedFiles (Some [(''/a.txt'', Text ''hi'')]) (Some [(''/a.txt'', Text ''hi'')]) = Inr []"
    by (simp add: changedFiles_def Let_def foldl_changes_step_same)
  have 2: "changedFiles (Some [(''/a.txt'', Unfetched)]) (Some [(''/a.txt'', Text ''hi'')]) =
     Inr [\<lparr>path = ''/a.txt'', status = Modified\<rparr>]"
    by (simp add: changedFiles_def Let_def new_Set_def set_add_def keys_def changes_step_def
        lookup_def endsWith_def suffix_def)
  show ?thesis unfolding b r using 1 2 by (simp add: s)
qed

text \<open>
  C4. The calculator, given the same table as current table and as baseline, stores the
  empty list, whatever the table holds.
\<close>

theorem diff_same_table_empty: "changedFiles (Some t) (Some t) = Inr []"
  by (simp add: changedFiles_def Let_def foldl_changes_step_same)

section \<open>Properties of the path resolver\<close>

lemma lastIndexOf_ge_m1: "- 1 \<le> lastIndexOf s c"
  by (induction s) (auto simp: Let_def)

lemma lastIndexOf_hd: "lastIndexOf (c # s) c \<ge> 0"
  using lastIndexOf_ge_m1 [of s c] by (simp add: Let_def)

lemma strip_file_scheme_file: "strip_file_scheme (''file://'' @ d) = Some d"
  by (simp add: strip_file_scheme_def)

lemma string_includes_sublist: "string_includes s t \<longleftrightarrow> sublist t s"
  by (induction s) (simp_all add: sublist_Cons_right)

lemma string_includes_take: "string_includes (take k s) t \<Longrightarrow> string_includes s t"
  unfolding string_includes_sublist using sublist_take sublist_order.order_trans by blast

lemma baseDir_plain:
  assumes "list_all plain_char base" and "startsWith base ''/''"
    and "\<not> string_includes base ''//''"
  shows "list_all plain_char
           (if endsWith base ''/'' then base else substring0 base (lastIndexOf base CHR ''/'' + 1)) \<and>
         startsWith
           (if endsWith base ''/'' then base else substring0 base (lastIndexOf base CHR ''/'' + 1)) ''/'' \<and>
         \<not> string_includes
           (if endsWith base ''/'' then base else substring0 base (lastIndexOf base CHR ''/'' + 1)) ''//''"
proof -
  from assms(2) obtain rest where b: "base = CHR ''/'' # rest"
    by (auto simp: startsWith_def prefix_def)
  have "0 \<le> lastIndexOf base CHR ''/''" unfolding b by (rule lastIndexOf_hd)
  then obtain k where k: "nat (lastIndexOf base CHR ''/'' + 1) = Suc k"
    by (metis Suc_nat_eq_nat_zadd1 add.commute)
  have "list_all plain_char (take (Suc k) base)"
    using assms(1) by (auto simp: list_all_iff dest: in_set_takeD)
  moreover have "startsWith (take (Suc k) base) ''/''"
    unfolding b by (simp add: startsWith_def)
  moreover have "\<not> string_includes (take (Suc k) base) ''//''"
    using assms(3) string_includes_take by blast
  ultimately show ?thesis using assms by (simp add: substring0_def k)
qed

text \<open>
  C6. With the URL parser of the previous section, \<^verbatim>\<open>resolvePath\<close> maps
  \<^verbatim>\<open>/a/b/index.html\<close> and \<^verbatim>\<open>./c.css\<close> to \<^verbatim>\<open>/a/b/c.css\<close>, and the same base
  and \<^verbatim>\<open>../c.css\<close> to \<^verbatim>\<open>/a/c.css\<close>. Whatever \<^verbatim>\<open>pathname\<close> the URL constructor
  gives, a result of \<^verbatim>\<open>resolvePath\<close> begins with \<^verbatim>\<open>/\<close>; and on an absolute base
  and a reference of plain path characters it does give a result.
\<close>

theorem resolvePath_results:
  "resolvePath URL_pathname_plain ''/a/b/index.html'' ''./c.css'' = Some ''/a/b/c.css'' \<and>
   resolvePath URL_pathname_plain ''/a/b/index.html'' ''../c.css'' = Some ''/a/c.css'' \<and>
   (resolvePath U base relative = Some p \<longrightarrow> startsWith p ''/'') \<and>
   (list_all plain_char base \<and> startsWith base ''/'' \<and> \<not> string_includes base ''//'' \<and>
    list_all plain_char relative \<and> \<not> string_includes relative ''//'' \<longrightarrow>
      (\<exists>q. resolvePath URL_pathname_plain base relative = Some q \<and> startsWith q ''/''))"
proof -
  have 1: "resolvePath URL_pathname_plain ''/a/b/index.html'' ''./c.css'' = Some ''/a/b/c.css''"
    by code_simp
  have 2: "resolvePath URL_pathname_plain ''/a/b/index.html'' ''../c.css'' = Some ''/a/c.css''"
    by code_simp
  have 3: "startsWith p ''/''" if "resolvePath U base relative = Some p"
    using that
    by (auto simp: resolvePath_def Let_def startsWith_def split: option.splits if_splits)
  have 4: "\<exists>q. resolvePath URL_pathname_plain base relative = Some q \<and> startsWith q ''/''"
    if h: "list_all plain_char base \<and> startsWith base ''/'' \<and> \<not> string_includes base ''//'' \<and>
       list_all plain_char relative \<and> \<not> string_includes relative ''//''"
  proof -
    let ?d = "if endsWith base ''/'' then base else substring0 base (lastIndexOf base CHR ''/'' + 1)"
    from h baseDir_plain [of base]
    have d: "list_all plain_char ?d" "startsWith ?d ''/''" "\<not> string_includes ?d ''//''"
      by simp_all
    have "\<exists>x. URL_pathname_plain relative (''file://'' @ ?d) = Some x"
      unfolding URL_pathname_plain_def strip_file_scheme_file using d h by (simp add: Let_def)
    then obtain x where x: "URL_pathname_plain relative (''file://'' @ ?d) = Some x" ..
    then have "resolvePath URL_pathname_plain base relative =
        Some (if startsWith x ''/'' then x else ''/'' @ x)"
      by (simp add: resolvePath_def Let_def)
    then show ?thesis by (auto simp: startsWith_def)
  qed
  from 1 2 3 4 show ?thesis by blast
qed

theorem resolvePath_results_witness:
  "list_all plain_char ''/proj/index.html'' \<and> startsWith ''/proj/index.html'' ''/'' \<and>
   \<not> string_includes ''/proj/index.html'' ''//'' \<and>
   list_all plain_char ''s.css'' \<and> \<not> string_includes ''s.css'' ''//'' \<and>
   resolvePath URL_pathname_plain ''/proj/index.html'' ''s.css'' = Some ''/proj/s.css'' \<and>
   startsWith ''/proj/s.css'' ''/''"
proof -
  have r: "resolvePath URL_pathname_plain ''/proj/index.html'' ''s.css'' = Some ''/proj/s.css''"
    by code_simp
  have h: "list_all plain_char ''/proj/index.html'' \<and> startsWith ''/proj/index.html'' ''/'' \<and>
   \<not> string_includes ''/proj/index.html'' ''//'' \<and>
   list_all plain_char ''s.css'' \<and> \<not> string_includes ''s.css'' ''//''"
    by code_simp
  from resolvePath_results [of URL_pathname_plain "''/proj/index.html''" "''s.css''" "''/proj/s.css''"] r h
  show ?thesis by simp
qed

section \<open>Properties of archive export and import\<close>

declare folderAdd.simps [simp del]

lemma in_set_updateD: "(n, m) \<in> set (AList.update k v al) \<Longrightarrow> (n, m) = (k, v) \<or> (n, m) \<in> set al"
  by (induction al) (auto split: if_splits)

text \<open>\<^verbatim>\<open>folderAdd\<close> adds directory members only, and leaves the members it finds.\<close>

lemma folderAdd_members:
  "(n, m) \<in> set (folderAdd name z) \<Longrightarrow> (n, m) \<in> set z \<or> dir m"
proof (induction name z rule: folderAdd.induct)
  case (1 name z)
  show ?case
  proof (cases "map_of z (forceTrailingSlash name) \<noteq> None")
    case True
    with "1.prems" show ?thesis by (subst (asm) folderAdd.simps) simp
  next
    case False
    let ?z1 = "if parentFolder (forceTrailingSlash name) \<noteq> []
               then folderAdd (parentFolder (forceTrailingSlash name)) z else z"
    from "1.prems" False
    have "(n, m) \<in> set (AList.update (forceTrailingSlash name) (JSZipObject True (Some [])) ?z1)"
      by (subst (asm) folderAdd.simps) simp
    then have "(n, m) = (forceTrailingSlash name, JSZipObject True (Some [])) \<or> (n, m) \<in> set ?z1"
      by (rule in_set_updateD)
    then show ?thesis
    proof
      assume "(n, m) = (forceTrailingSlash name, JSZipObject True (Some []))"
      then show ?thesis by simp
    next
      assume "(n, m) \<in> set ?z1"
      with False "1.IH" show ?thesis by (auto split: if_splits)
    qed
  qed
qed

lemma folderAdd_preserves:
  "map_of z k = Some v \<Longrightarrow> map_of (folderAdd name z) k = Some v"
proof (induction name z rule: folderAdd.induct)
  case (1 name z)
  show ?case
  proof (cases "map_of z (forceTrailingSlash name) \<noteq> None")
    case True
    with "1.prems" show ?thesis by (subst folderAdd.simps) simp
  next
    case False
    with "1.prems" have ne: "k \<noteq> forceTrailingSlash name" by auto
    let ?z1 = "if parentFolder (forceTrailingSlash name) \<noteq> []
               then folderAdd (parentFolder (forceTrailingSlash name)) z else z"
    have "map_of ?z1 k = Some v" using False "1.IH" "1.prems" by auto
    with False ne show ?thesis
      by (subst folderAdd.simps) (simp add: update_conv')
  qed
qed

lemma zip_file_members:
  "(n, m) \<in> set (zip_file name content z) \<Longrightarrow>
   (n, m) \<in> set z \<or> dir m \<or> (n, m) = (name, JSZipObject False (Some content))"
  by (auto simp: zip_file_def dest!: in_set_updateD folderAdd_members split: if_splits)

lemma zip_file_same: "map_of (zip_file name content z) name = Some (JSZipObject False (Some content))"
  by (simp add: zip_file_def update_conv')

lemma zip_file_other:
  "k \<noteq> name \<Longrightarrow> map_of z k = Some v \<Longrightarrow> map_of (zip_file name content z) k = Some v"
  by (simp add: zip_file_def update_conv' folderAdd_preserves)

lemma download_step_members:
  assumes "(n, m) \<in> set (download_step fs z p)"
  shows "(n, m) \<in> set z \<or> dir m \<or>
     (\<exists>c. lookup fs p = Some (Text c) \<and> \<not> endsWith p ''/.placeholder'' \<and>
          n = drop 1 p \<and> m = JSZipObject False (Some c))"
  using assms
  by (auto simp: download_step_def split: if_splits option.splits content.splits
      dest!: zip_file_members)

lemma foldl_download_step_members:
  "(n, m) \<in> set (foldl (download_step fs) z ps) \<Longrightarrow>
   (n, m) \<in> set z \<or> dir m \<or>
     (\<exists>p c. p \<in> set ps \<and> lookup fs p = Some (Text c) \<and> \<not> endsWith p ''/.placeholder'' \<and>
          n = drop 1 p \<and> m = JSZipObject False (Some c))"
proof (induction ps arbitrary: z)
  case Nil
  then show ?case by simp
next
  case (Cons q ps)
  from Cons.prems have "(n, m) \<in> set (foldl (download_step fs) (download_step fs z q) ps)"
    by simp
  from Cons.IH [OF this] show ?case
  proof (elim disjE)
    assume "(n, m) \<in> set (download_step fs z q)"
    from download_step_members [OF this] show ?thesis by auto
  next
    assume "dir m"
    then show ?thesis by simp
  next
    assume "\<exists>p c. p \<in> set ps \<and> lookup fs p = Some (Text c) \<and> \<not> endsWith p ''/.placeholder'' \<and>
          n = drop 1 p \<and> m = JSZipObject False (Some c)"
    then show ?thesis by auto
  qed
qed

lemma drop1_slash: "startsWith p ''/'' \<Longrightarrow> p = ''/'' @ drop 1 p"
  by (cases p) (auto simp: startsWith_def)

lemma download_step_other:
  assumes "drop 1 x \<noteq> k" and "map_of z k = Some v"
  shows "map_of (download_step fs z x) k = Some v"
  using assms
  by (auto simp: download_step_def zip_file_other split: option.splits content.splits)

lemma foldl_download_step_exports:
  assumes "inj_on (drop 1) (set ps)" and "q \<in> set ps"
    and "lookup fs q = Some (Text c)" and "\<not> endsWith q ''/.placeholder''"
  shows "map_of (foldl (download_step fs) z ps) (drop 1 q) = Some (JSZipObject False (Some c))"
  using assms(1,2)
proof (induction ps rule: rev_induct)
  case Nil
  then show ?case by simp
next
  case (snoc x ps)
  have inj: "inj_on (drop 1) (set ps)" using snoc.prems(1) by (simp add: inj_on_def)
  show ?case
  proof (cases "q = x")
    case True
    with assms(3,4) show ?thesis
      by (simp add: download_step_def zip_file_same)
  next
    case False
    with snoc.prems(2) have qin: "q \<in> set ps" by simp
    have ne: "drop 1 x \<noteq> drop 1 q"
      using snoc.prems(1) False qin by (auto simp: inj_on_def)
    from download_step_other [OF ne snoc.IH [OF inj qin]] show ?thesis
      by simp
  qed
qed

lemma inj_on_drop1:
  assumes "\<forall>k\<in>set ps. startsWith k ''/''"
  shows "inj_on (drop 1) (set ps)"
proof (rule inj_onI)
  fix x y assume xin: "x \<in> set ps" and yin: "y \<in> set ps" and eq: "drop 1 x = drop 1 y"
  from assms xin have "startsWith x ''/''" by blast
  then have x: "x = ''/'' @ drop 1 x" by (rule drop1_slash)
  from assms yin have "startsWith y ''/''" by blast
  then have y: "y = ''/'' @ drop 1 y" by (rule drop1_slash)
  from x y eq show "x = y" by metis
qed

text \<open>
  C7. Packing the table of \<^verbatim>\<open>/a.txt\<close> and \<^verbatim>\<open>/x/.placeholder\<close> and unpacking the
  members at the root gives the entries \<^verbatim>\<open>{"/a.txt": "hi"}\<close> and nothing else. In
  general every member of the exported archive that is not a directory comes from a text
  entry whose path does not end in \<^verbatim>\<open>/.placeholder\<close>, under the name of that path
  without its first character, the leading slash; and where every key begins with a
  slash, every such entry is a member under that name.
\<close>

theorem export_import_roundtrip:
  "unpack (handleDownloadProject [(''/a.txt'', Text ''hi''), (''/x/.placeholder'', Text '''')]) ''/'' =
     [(''/a.txt'', Text ''hi'')] \<and>
   ((name, member) \<in> set (handleDownloadProject fs) \<and> \<not> dir member \<longrightarrow>
      (\<exists>p c. lookup fs p = Some (Text c) \<and> \<not> endsWith p ''/.placeholder'' \<and>
         name = drop 1 p \<and> member = JSZipObject False (Some c) \<and>
         (startsWith p ''/'' \<longrightarrow> p = ''/'' @ name))) \<and>
   ((\<forall>k\<in>set (keys fs). startsWith k ''/'') \<and> lookup fs q = Some (Text d) \<and>
      \<not> endsWith q ''/.placeholder'' \<longrightarrow>
      map_of (handleDownloadProject fs) (drop 1 q) = Some (JSZipObject False (Some d)))"
proof -
  have 1: "unpack (handleDownloadProject [(''/a.txt'', Text ''hi''), (''/x/.placeholder'', Text '''')]) ''/'' =
     [(''/a.txt'', Text ''hi'')]"
    by code_simp
  have 2: "\<exists>p c. lookup fs p = Some (Text c) \<and> \<not> endsWith p ''/.placeholder'' \<and>
         name = drop 1 p \<and> member = JSZipObject False (Some c) \<and>
         (startsWith p ''/'' \<longrightarrow> p = ''/'' @ name)"
    if "(name, member) \<in> set (handleDownloadProject fs) \<and> \<not> dir member"
  proof -
    from that foldl_download_step_members [of name member fs "[]" "keys fs"]
    obtain p c where "lookup fs p = Some (Text c)" "\<not> endsWith p ''/.placeholder''"
      "name = drop 1 p" "member = JSZipObject False (Some c)"
      by (auto simp: handleDownloadProject_def)
    moreover from this have "startsWith p ''/'' \<longrightarrow> p = ''/'' @ name"
      by (auto dest: drop1_slash)
    ultimately show ?thesis by blast
  qed
  have 3: "map_of (handleDownloadProject fs) (drop 1 q) = Some (JSZipObject False (Some d))"
    if h: "(\<forall>k\<in>set (keys fs). startsWith k ''/'') \<and> lookup fs q = Some (Text d) \<and>
      \<not> endsWith q ''/.placeholder''"
  proof -
    from h inj_on_drop1 [of "keys fs"] have i: "inj_on (drop 1) (set (keys fs))" by blast
    from h have k: "q \<in> set (keys fs)" by (auto dest: lookup_Some_in_keys)
    from h have l: "lookup fs q = Some (Text d)" and e: "\<not> endsWith q ''/.placeholder''"
      by simp_all
    show ?thesis
      unfolding handleDownloadProject_def by (rule foldl_download_step_exports [OF i k l e])
  qed
  from 1 2 3 show ?thesis by blast
qed

theorem export_import_roundtrip_witness:
  "handleDownloadProject [(''/d/e/f.txt'', Text ''hi''), (''/x/.placeholder'', Text '''')] =
     [(''d/'', JSZipObject True (Some [])), (''d/e/'', JSZipObject True (Some [])),
      (''d/e/f.txt'', JSZipObject False (Some ''hi''))] \<and>
   keys [(''/d/e/f.txt'', Text ''hi''), (''/x/.placeholder'', Text '''')] =
     [''/d/e/f.txt'', ''/x/.placeholder''] \<and>
   lookup [(''/d/e/f.txt'', Text ''hi''), (''/x/.placeholder'', Text '''')] ''/d/e/f.txt'' =
     Some (Text ''hi'') \<and>
   \<not> endsWith ''/d/e/f.txt'' ''/.placeholder'' \<and>
   \<not> dir (JSZipObject False (Some ''hi'')) \<and>
   map_of (handleDownloadProject [(''/d/e/f.txt'', Text ''hi''), (''/x/.placeholder'', Text '''')])
     ''d/e/f.txt'' = Some (JSZipObject False (Some ''hi''))"
proof -
  let ?t = "[(''/d/e/f.txt'', Text ''hi''), (''/x/.placeholder'', Text '''')]"
  have z: "handleDownloadProject ?t =
     [(''d/'', JSZipObject True (Some [])), (''d/e/'', JSZipObject True (Some [])),
      (''d/e/f.txt'', JSZipObject False (Some ''hi''))]"
    by code_simp
  have m: "(''d/e/f.txt'', JSZipObject False (Some ''hi'')) \<in> set (handleDownloadProject ?t)"
    unfolding z by simp
  have k: "\<forall>k\<in>set (keys ?t). startsWith k ''/''"
    by (simp add: keys_def startsWith_def)
  have l: "lookup ?t ''/d/e/f.txt'' = Some (Text ''hi'')"
    by (simp add: lookup_def)
  have e: "\<not> endsWith ''/d/e/f.txt'' ''/.placeholder''"
    by (simp add: endsWith_def suffix_def)
  have d: "drop 1 ''/d/e/f.txt'' = ''d/e/f.txt''" by simp
  from export_import_roundtrip [of "''d/e/f.txt''" "JSZipObject False (Some ''hi'')" ?t "''/d/e/f.txt''" "''hi''"]
    m k l e d z
  show ?thesis by (simp add: keys_def)
qed

lemma spread_snoc: "spread a (b @ [(k, v)]) = AList.update k v (spread a b)"
  by (simp add: spread_def)

lemma lookup_spread_notin:
  "p \<notin> set (keys b) \<Longrightarrow> lookup (spread a b) p = lookup a p"
proof (induction b rule: rev_induct)
  case Nil
  then show ?case by (simp add: spread_def)
next
  case (snoc x b)
  obtain k v where x: "x = (k, v)" by (cases x)
  from snoc.prems have "p \<noteq> k" and "p \<notin> set (keys b)" by (auto simp: keys_def x)
  with snoc.IH show ?case
    unfolding x spread_snoc by (simp add: lookup_def update_conv')
qed

lemma lookup_spread_in:
  assumes "distinct (keys b)" and "p \<in> set (keys b)"
  shows "lookup (spread a b) p = lookup b p"
  using assms
proof (induction b rule: rev_induct)
  case Nil
  then show ?case by (simp add: keys_def)
next
  case (snoc x b)
  obtain k v where x: "x = (k, v)" by (cases x)
  from snoc.prems(1) have d: "distinct (keys b)" and kn: "k \<notin> set (keys b)"
    by (auto simp: keys_def x)
  from kn have none: "map_of b k = None"
    by (simp add: keys_def map_of_eq_None_iff)
  show ?case
  proof (cases "p = k")
    case True
    with none show ?thesis
      unfolding x spread_snoc by (simp add: lookup_def update_conv' map_add_def)
  next
    case False
    with snoc.prems(2) have pin: "p \<in> set (keys b)" by (auto simp: keys_def x)
    then have "map_of b p \<noteq> None"
      by (simp add: keys_def map_of_eq_None_iff)
    then obtain w where "map_of b p = Some w" by blast
    with snoc.IH [OF d pin] False show ?thesis
      unfolding x spread_snoc by (simp add: lookup_def update_conv' map_add_def)
  qed
qed

lemma distinct_unpack_step:
  "distinct (keys (fst acc)) \<Longrightarrow> distinct (keys (fst (unpack_step cd acc member)))"
  by (cases acc; cases member)
     (auto simp: unpack_step_def keys_def Let_def distinct_update split: option.splits)

lemma distinct_foldl_unpack_step:
  "distinct (keys (fst acc)) \<Longrightarrow> distinct (keys (fst (foldl (unpack_step cd) acc ms)))"
  by (induction ms arbitrary: acc) (simp_all add: distinct_unpack_step)

lemma distinct_unpack: "distinct (keys (unpack contents dest))"
  unfolding unpack_def by (rule distinct_foldl_unpack_step) (simp add: keys_def)

text \<open>
  C10. \<^verbatim>\<open>handleConfirmUnpack\<close> writes the previous table merged with the unpacked
  entries: a path that the unpack did not write keeps its entry, and a path that it
  wrote takes the unpacked content, whether or not the table had the path before; there
  is no existence check. \<^verbatim>\<open>handleNewFile\<close> on a path that exists shows its alert and
  returns the store as it was.
\<close>

theorem unpack_merges_and_overwrites:
  "(\<exists>newFs. handleConfirmUnpack (Some (Some contents)) dest s = setFileSystem newFs True s \<and>
      fileSystem (handleConfirmUnpack (Some (Some contents)) dest s) = Some newFs \<and>
      (\<forall>p. p \<notin> set (keys (unpack contents dest)) \<longrightarrow>
           lookup newFs p = lookup (case fileSystem s of None \<Rightarrow> [] | Some fs \<Rightarrow> fs) p) \<and>
      (\<forall>p. p \<in> set (keys (unpack contents dest)) \<longrightarrow>
           lookup newFs p = lookup (unpack contents dest) p)) \<and>
   (fileSystem s = Some fs \<and> lookup fs q \<noteq> None \<longrightarrow>
      handleNewFile q s = Inr (Some ''File already exists at this path.'', s))"
proof -
  let ?old = "case fileSystem s of None \<Rightarrow> [] | Some fs \<Rightarrow> fs"
  let ?upd = "unpack contents dest"
  have "handleConfirmUnpack (Some (Some contents)) dest s = setFileSystem (spread ?old ?upd) True s"
    by (simp add: handleConfirmUnpack_def Let_def)
  moreover have "fileSystem (setFileSystem (spread ?old ?upd) True s) = Some (spread ?old ?upd)"
    by (simp add: setFileSystem_def Let_def)
  moreover have "\<forall>p. p \<notin> set (keys ?upd) \<longrightarrow> lookup (spread ?old ?upd) p = lookup ?old p"
    by (simp add: lookup_spread_notin)
  moreover have "\<forall>p. p \<in> set (keys ?upd) \<longrightarrow> lookup (spread ?old ?upd) p = lookup ?upd p"
    by (simp add: lookup_spread_in distinct_unpack)
  moreover have "fileSystem s = Some fs \<and> lookup fs q \<noteq> None \<longrightarrow>
      handleNewFile q s = Inr (Some ''File already exists at this path.'', s)"
    by (auto simp: handleNewFile_def)
  ultimately show ?thesis by metis
qed

theorem unpack_merges_and_overwrites_witness:
  "fileSystem \<lparr>fileSystem = Some [(''/a.txt'', Text ''old''), (''/b.txt'', Text ''keep'')],
      fileSystemHistory = [[(''/a.txt'', Text ''old''), (''/b.txt'', Text ''keep'')]],
      currentHistoryIndex = 0\<rparr> = Some [(''/a.txt'', Text ''old''), (''/b.txt'', Text ''keep'')] \<and>
   lookup [(''/a.txt'', Text ''old''), (''/b.txt'', Text ''keep'')] ''/a.txt'' \<noteq> None \<and>
   handleNewFile ''/a.txt''
     \<lparr>fileSystem = Some [(''/a.txt'', Text ''old''), (''/b.txt'', Text ''keep'')],
      fileSystemHistory = [[(''/a.txt'', Text ''old''), (''/b.txt'', Text ''keep'')]],
      currentHistoryIndex = 0\<rparr> =
     Inr (Some ''File already exists at this path.'',
       \<lparr>fileSystem = Some [(''/a.txt'', Text ''old''), (''/b.txt'', Text ''keep'')],
        fileSystemHistory = [[(''/a.txt'', Text ''old''), (''/b.txt'', Text ''keep'')]],
        currentHistoryIndex = 0\<rparr>) \<and>
   fileSystem (handleConfirmUnpack (Some (Some [(''a.txt'', JSZipObject False (Some ''new''))])) ''/''
     \<lparr>fileSystem = Some [(''/a.txt'', Text ''old''), (''/b.txt'', Text ''keep'')],
      fileSystemHistory = [[(''/a.txt'', Text ''old''), (''/b.txt'', Text ''keep'')]],
      currentHistoryIndex = 0\<rparr>) =
     Some [(''/a.txt'', Text ''new''), (''/b.txt'', Text ''keep'')]"
proof -
  let ?fs = "[(''/a.txt'', Text ''old''), (''/b.txt'', Text ''keep'')]"
  let ?s = "\<lparr>fileSystem = Some ?fs, fileSystemHistory = [?fs], currentHistoryIndex = 0\<rparr>"
  have l: "lookup ?fs ''/a.txt'' \<noteq> None" by (simp add: lookup_def)
  have u: "fileSystem (handleConfirmUnpack (Some (Some [(''a.txt'', JSZipObject False (Some ''new''))])) ''/'' ?s) =
     Some [(''/a.txt'', Text ''new''), (''/b.txt'', Text ''keep'')]"
    by code_simp
  from unpack_merges_and_overwrites [of "[(''a.txt'', JSZipObject False (Some ''new''))]" "''/''" ?s ?fs "''/a.txt''"]
    l u
  show ?thesis by simp
qed

section \<open>Properties of the preview resolver\<close>

lemma baseDir_proj:
  "(if endsWith ''/proj/index.html'' ''/'' then ''/proj/index.html''
    else substring0 ''/proj/index.html'' (lastIndexOf ''/proj/index.html'' CHR ''/'' + 1)) = ''/proj/''"
  by code_simp

lemma plain_s_css: "URL_pathname_plain ''s.css'' ''file:///proj/'' = Some ''/proj/s.css''"
  by code_simp

lemma resolve_s_css:
  assumes "\<And>r b p. URL_pathname_plain r b = Some p \<Longrightarrow> U r b = Some p"
  shows "resolvePath U ''/proj/index.html'' ''s.css'' = Some ''/proj/s.css''"
proof -
  have "U ''s.css'' (''file://'' @ ''/proj/'') = Some ''/proj/s.css''"
    using assms [OF plain_s_css] by simp
  then show ?thesis
    unfolding resolvePath_def baseDir_proj Let_def by (simp add: startsWith_def)
qed

lemma out_includes:
  "string_includes ''<!DOCTYPE html><html><head><style>body{color:red}</style></head><body>hi</body></html>''
     ''<style>body{color:red}</style>'' \<and>
   \<not> string_includes ''<!DOCTYPE html><html><head><style>body{color:red}</style></head><body>hi</body></html>''
     ''<link''"
  by code_simp

text \<open>
  C5. Root \<^verbatim>\<open>/proj\<close>, with \<^verbatim>\<open>/proj/index.html\<close> holding a document whose head has
  a style sheet link to \<^verbatim>\<open>s.css\<close>, and \<^verbatim>\<open>/proj/s.css\<close> holding
  \<^verbatim>\<open>body{color:red}\<close>. Given the tree that the HTML parser builds for this document
  (an \<^verbatim>\<open>html\<close> element with a \<^verbatim>\<open>head\<close> holding the link and a \<^verbatim>\<open>body\<close> holding
  the text, under any distinct identities), and a URL constructor that agrees with the
  path state of the URL Standard on plain references, \<^verbatim>\<open>updatePreview\<close> returns a
  document in which \<^verbatim>\<open><style>body{color:red}</style>\<close> occurs and \<^verbatim>\<open><link\<close> does
  not.
\<close>

theorem preview_inlines_stylesheet:
  assumes parse: "env_parseFromString env
        ''<html><head><link rel=stylesheet href=s.css></head><body>hi</body></html>'' =
      \<lparr>documentElement = Some (Element i0 ''html'' []
         [Element i1 ''head'' []
            [Element i2 ''link'' [(''rel'', ''stylesheet''), (''href'', ''s.css'')] []],
          Element i3 ''body'' [] [TextNode ''hi'']]),
       next_id = n\<rparr>"
    and ids: "distinct [i0, i1, i2, i3]" and fresh: "n \<notin> set [i0, i1, i2, i3]"
    and url: "\<And>r b p. URL_pathname_plain r b = Some p \<Longrightarrow> env_URL_pathname env r b = Some p"
  shows "\<exists>out. updatePreview env
        [(''/proj/index.html'',
            Text ''<html><head><link rel=stylesheet href=s.css></head><body>hi</body></html>''),
         (''/proj/s.css'', Text ''body{color:red}'')]
        (Some ''/proj'') = Inr out \<and>
      out = ''<!DOCTYPE html><html><head><style>body{color:red}</style></head><body>hi</body></html>'' \<and>
      string_includes out ''<style>body{color:red}</style>'' \<and>
      \<not> string_includes out ''<link''"
proof -
  let ?fs = "[(''/proj/index.html'',
            Text ''<html><head><link rel=stylesheet href=s.css></head><body>hi</body></html>''),
         (''/proj/s.css'', Text ''body{color:red}'')]"
  have r: "resolvePath (env_URL_pathname env) ''/proj/index.html'' ''s.css'' = Some ''/proj/s.css''"
    using url by (rule resolve_s_css)
  have nv: "''html'' \<notin> set void_elements" "''head'' \<notin> set void_elements"
     "''style'' \<notin> set void_elements" "''body'' \<notin> set void_elements"
    by (simp_all add: void_elements_def)
  have raw: "''style'' \<in> set raw_text_elements" by (simp add: raw_text_elements_def)
  have esc: "escape_text ''hi'' = ''hi''" by (simp add: escape_text_def)
  have "render_html (env_parseFromString env) (env_URL_pathname env) ?fs ''/proj/index.html''
      ''<html><head><link rel=stylesheet href=s.css></head><body>hi</body></html>'' =
     Inr ''<!DOCTYPE html><html><head><style>body{color:red}</style></head><body>hi</body></html>''"
    using ids fresh
    by (auto simp: render_html_def parse querySelectorAll_def sel_link_stylesheet_def to_lower_def
        inline_link_def getAttribute_def startsWith_def r lookup_def createElement_def
        set_textContent_def head_appendChild_def remove_def is_node_def sel_script_def
        outerHTML_def nv raw esc Let_def)
  then have "updatePreview env ?fs (Some ''/proj'') =
     Inr ''<!DOCTYPE html><html><head><style>body{color:red}</style></head><body>hi</body></html>''"
    by (simp add: updatePreview_def Let_def endsWith_def suffix_def lookup_def)
  with out_includes show ?thesis by simp
qed

theorem preview_inlines_stylesheet_witness:
  "updatePreview
     \<lparr>env_parseFromString = (\<lambda>html.
        \<lparr>documentElement = Some (Element 0 ''html'' []
           [Element 1 ''head'' []
              [Element 2 ''link'' [(''rel'', ''stylesheet''), (''href'', ''s.css'')] []],
            Element 3 ''body'' [] [TextNode ''hi'']]),
         next_id = 4\<rparr>),
      env_URL_pathname = URL_pathname_plain,
      env_marked_parse = (\<lambda>md. md),
      env_mdSrcDoc = (\<lambda>title mdHtml. mdHtml),
      env_codeSrcDoc = (\<lambda>name code. code)\<rparr>
     [(''/proj/index.html'',
         Text ''<html><head><link rel=stylesheet href=s.css></head><body>hi</body></html>''),
      (''/proj/s.css'', Text ''body{color:red}'')]
     (Some ''/proj'') =
   Inr ''<!DOCTYPE html><html><head><style>body{color:red}</style></head><body>hi</body></html>''"
proof -
  let ?env = "\<lparr>env_parseFromString = (\<lambda>html.
        \<lparr>documentElement = Some (Element 0 ''html'' []
           [Element 1 ''head'' []
              [Element 2 ''link'' [(''rel'', ''stylesheet''), (''href'', ''s.css'')] []],
            Element 3 ''body'' [] [TextNode ''hi'']]),
         next_id = 4\<rparr>),
      env_URL_pathname = URL_pathname_plain,
      env_marked_parse = (\<lambda>md. md),
      env_mdSrcDoc = (\<lambda>title mdHtml. mdHtml),
      env_codeSrcDoc = (\<lambda>name code. code)\<rparr>"
  have p: "env_parseFromString ?env
        ''<html><head><link rel=stylesheet href=s.css></head><body>hi</body></html>'' =
      \<lparr>documentElement = Some (Element 0 ''html'' []
         [Element 1 ''head'' []
            [Element 2 ''link'' [(''rel'', ''stylesheet''), (''href'', ''s.css'')] []],
          Element 3 ''body'' [] [TextNode ''hi'']]),
       next_id = 4\<rparr>"
    by simp
  have d: "distinct [0, 1, 2, 3 :: nat]" by simp
  have f: "(4 :: nat) \<notin> set [0, 1, 2, 3]" by simp
  have u: "\<And>r b p. URL_pathname_plain r b = Some p \<Longrightarrow> env_URL_pathname ?env r b = Some p"
    by simp
  from preview_inlines_stylesheet [of ?env 0 1 2 3 4, OF p d f u] show ?thesis by auto
qed

end
